theory Spec2Isabelle
  imports Complex_Main
begin

section \<open>Numbers\<close>

text \<open>
  The audit computes on float64 columns and Python floats.  They are idealised here as
  \<^typ>\<open>real\<close>; a pandas cell that is NaN (or NaT) is \<^term>\<open>None\<close>.  Integer
  columns and Python ints are \<^typ>\<open>int\<close>.
\<close>

definition round_half_even :: "real \<Rightarrow> int" where
  "round_half_even x =
     (let f = \<lfloor>x\<rfloor>; d = x - of_int f
      in if d < 1 / 2 then f else if 1 / 2 < d then f + 1
         else if even f then f else f + 1)"

definition round_to :: "nat \<Rightarrow> real \<Rightarrow> real" where
  \<comment> \<open>\<open>Series.round(n)\<close> and \<open>round(x, n)\<close>: nearest multiple of \<open>10^-n\<close>, ties to even.\<close>
  "round_to n x = of_int (round_half_even (x * 10 ^ n)) / 10 ^ n"

definition py_int :: "real \<Rightarrow> int" where
  \<comment> \<open>\<open>int(x)\<close> on a float truncates toward zero.\<close>
  "py_int x = (if 0 \<le> x then \<lfloor>x\<rfloor> else \<lceil>x\<rceil>)"

section \<open>The audit data frame\<close>

text \<open>
  A data frame is the list of its rows, and a row is a record of the columns the audit
  reads or writes.  A function that returns a copy of the frame with new columns returns
  the rows with those columns set; a column not written yet holds a default.  The column
  \<open>published\<close> holds the instant that \<open>pd.to_datetime(..., utc=True, errors="coerce")\<close>
  parses from it, in seconds since the epoch.
\<close>

record row =
  col_title :: "string option"
  col_description :: "string option"
  col_views :: int
  col_likes :: "real option"
  col_comments :: "real option"
  col_published :: "real option"
  col_age_min :: "real option"
  col_views_per_min :: "real option"
  col_like_rate :: "real option"
  col_comment_rate :: "real option"
  col_title_len :: nat
  col_title_ok_len :: bool
  col_dup_word_penalty :: int

definition replace_zero :: "int \<Rightarrow> real option" where
  \<comment> \<open>\<open>out["views"].replace(0, np.nan)\<close>, one cell.\<close>
  "replace_zero v = (if v = 0 then None else Some (of_int v))"

definition rate_cell :: "real option \<Rightarrow> int \<Rightarrow> real option" where
  \<comment> \<open>\<open>(count / views.replace(0, nan) * 100).round(2)\<close>; NaN propagates.\<close>
  "rate_cell c v =
     (case (c, replace_zero v) of
        (Some x, Some d) \<Rightarrow> Some (round_to 2 (x / d * 100))
      | _ \<Rightarrow> None)"

definition engagement_rates :: "row list \<Rightarrow> row list" where
  "engagement_rates df =
     map (\<lambda>r. r\<lparr>col_like_rate := rate_cell (col_likes r) (col_views r),
                col_comment_rate := rate_cell (col_comments r) (col_views r)\<rparr>) df"

section \<open>Strings and the patterns of the rubric\<close>

text \<open>
  A Python \<open>str\<close> is a list of code points; here a \<^typ>\<open>string\<close> holds one
  \<^typ>\<open>char\<close> per code point, for code points below 256 (ASCII and Latin-1), and
  \<^term>\<open>length\<close> is Python's \<open>len\<close>.  The classifications below are those
  of Python 3 on that range.
\<close>

definition code :: "char \<Rightarrow> nat" where
  "code c = of_char c"

definition re_digit :: "char \<Rightarrow> bool" where
  \<comment> \<open>\<open>\d\<close>: a decimal digit.\<close>
  "re_digit c = (48 \<le> code c \<and> code c \<le> 57)"

definition isdigit :: "char \<Rightarrow> bool" where
  \<comment> \<open>\<open>str.isdigit\<close>: the decimal digits and the superscripts 1, 2, 3.\<close>
  "isdigit c = (re_digit c \<or> code c = 178 \<or> code c = 179 \<or> code c = 185)"

definition is_word :: "char \<Rightarrow> bool" where
  \<comment> \<open>\<open>\w\<close>: alphanumeric or underscore.\<close>
  "is_word c =
     (let n = code c
      in (48 \<le> n \<and> n \<le> 57) \<or> (65 \<le> n \<and> n \<le> 90) \<or> (97 \<le> n \<and> n \<le> 122) \<or> n = 95
         \<or> n = 170 \<or> n = 178 \<or> n = 179 \<or> n = 181 \<or> n = 185 \<or> n = 186
         \<or> n = 188 \<or> n = 189 \<or> n = 190
         \<or> (192 \<le> n \<and> n \<noteq> 215 \<and> n \<noteq> 247))"

definition lower_char :: "char \<Rightarrow> char" where
  "lower_char c =
     (let n = code c
      in if (65 \<le> n \<and> n \<le> 90) \<or> (192 \<le> n \<and> n \<le> 222 \<and> n \<noteq> 215)
         then char_of (n + 32) else c)"

definition lower :: "string \<Rightarrow> string" where
  "lower s = map lower_char s"

definition at_word_end :: "string \<Rightarrow> bool" where
  \<comment> \<open>\<open>\b\<close> after a word character: the text ends or a non-word character follows.\<close>
  "at_word_end rest = (case rest of [] \<Rightarrow> True | c # _ \<Rightarrow> \<not> is_word c)"

fun match_ci :: "string \<Rightarrow> string \<Rightarrow> string option" where
  \<comment> \<open>A lower-case literal matched ignoring case at the head of the text; the rest.\<close>
  "match_ci [] s = Some s"
| "match_ci (p # ps) [] = None"
| "match_ci (p # ps) (c # cs) = (if lower_char c = p then match_ci ps cs else None)"

definition POWER_WORDS :: "string list" where
  "POWER_WORDS =
     [''best'', ''secret'', ''fast'', ''simple'', ''ultimate'', ''new'', ''proof'', ''free'',
      ''easy'', ''guide'', ''mistake'', ''hack'', ''win'', ''earn'', ''rich'', ''money'',
      ''truth'', ''behind'', ''strategy'', ''blueprint'']"

definition power_at :: "string \<Rightarrow> bool" where
  "power_at s =
     list_ex (\<lambda>w. case match_ci w s of None \<Rightarrow> False | Some rest \<Rightarrow> at_word_end rest)
       POWER_WORDS"

fun power_scan :: "bool \<Rightarrow> string \<Rightarrow> bool" where
  \<comment> \<open>The flag says whether the previous character is a word character.\<close>
  "power_scan prev [] = False"
| "power_scan prev (c # cs) = ((\<not> prev \<and> power_at (c # cs)) \<or> power_scan (is_word c) cs)"

definition POWER_search :: "string \<Rightarrow> bool" where
  \<comment> \<open>\<open>bool(_POWER.search(s))\<close>\<close>
  "POWER_search s = power_scan False s"

definition has_number :: "string \<Rightarrow> bool" where
  "has_number s = list_ex isdigit s"

fun starts_with :: "string \<Rightarrow> string \<Rightarrow> bool" where
  "starts_with [] s = True"
| "starts_with (p # ps) [] = False"
| "starts_with (p # ps) (c # cs) = (p = c \<and> starts_with ps cs)"

fun has_link :: "string \<Rightarrow> bool" where
  \<comment> \<open>\<open>re.search(r"https?://", s)\<close>\<close>
  "has_link [] = False"
| "has_link (c # cs) =
     (starts_with ''http://'' (c # cs) \<or> starts_with ''https://'' (c # cs) \<or> has_link cs)"

definition chapter_at :: "string \<Rightarrow> bool" where
  \<comment> \<open>\<open>\d{1,2}:\d{2}\b\<close> at the head of the text, with two digits or with one.\<close>
  "chapter_at s =
     ((case s of a # b # c # d # e # rest \<Rightarrow>
         re_digit a \<and> re_digit b \<and> c = CHR '':'' \<and> re_digit d \<and> re_digit e \<and> at_word_end rest
       | _ \<Rightarrow> False)
      \<or> (case s of a # c # d # e # rest \<Rightarrow>
         re_digit a \<and> c = CHR '':'' \<and> re_digit d \<and> re_digit e \<and> at_word_end rest
       | _ \<Rightarrow> False))"

fun chapter_scan :: "bool \<Rightarrow> string \<Rightarrow> bool" where
  "chapter_scan prev [] = False"
| "chapter_scan prev (c # cs) =
     ((\<not> prev \<and> chapter_at (c # cs)) \<or> chapter_scan (is_word c) cs)"

definition has_chapters :: "string \<Rightarrow> bool" where
  \<comment> \<open>\<open>re.search(r"\b\d{1,2}:\d{2}\b", s)\<close>\<close>
  "has_chapters s = chapter_scan False s"

definition or_empty :: "string option \<Rightarrow> string" where
  \<comment> \<open>\<open>s or ""\<close>\<close>
  "or_empty s = (case s of None \<Rightarrow> [] | Some t \<Rightarrow> t)"

section \<open>SEO scorer\<close>

datatype pyfloat = PyNone | NaN | Num real

definition or_zero :: "pyfloat \<Rightarrow> pyfloat" where
  \<comment> \<open>\<open>float(x or 0.0)\<close>: \<open>None\<close> and zero are falsy, NaN is not.\<close>
  "or_zero x = (case x of PyNone \<Rightarrow> Num 0 | NaN \<Rightarrow> NaN | Num v \<Rightarrow> Num v)"

definition max_zero :: "pyfloat \<Rightarrow> real" where
  \<comment> \<open>\<open>max(0.0, y)\<close> is \<open>y\<close> only when \<open>y > 0.0\<close> holds, which it never does for NaN.\<close>
  "max_zero y = (case y of Num v \<Rightarrow> if 0 < v then v else 0 | _ \<Rightarrow> 0)"

definition py_min :: "real \<Rightarrow> real \<Rightarrow> real" where
  \<comment> \<open>\<open>min(a, b)\<close> is \<open>b\<close> only when \<open>b < a\<close>.\<close>
  "py_min a b = (if b < a then b else a)"

record seo_notes =
  note_title_len_ok :: bool
  note_power_word :: bool
  note_has_number :: bool
  note_dup_penalty :: int
  note_desc_len_ok :: bool
  note_chapters :: bool
  note_links :: bool
  note_like_rate :: real
  note_comment_rate :: real

definition seo_score_row ::
  "string option \<Rightarrow> string option \<Rightarrow> pyfloat \<Rightarrow> pyfloat \<Rightarrow> int \<Rightarrow> int \<times> seo_notes" where
  "seo_score_row title0 desc0 like_rate0 comment_rate0 dup_penalty =
     (let title = or_empty title0;
          desc = or_empty desc0;
          pts = 0;
          ok_len = (45 \<le> length title \<and> length title \<le> 70);
          pw = POWER_search title;
          num = has_number title;
          pts = (if ok_len then pts + 12 else pts);
          pts = (if pw then pts + 10 else pts);
          pts = (if num then pts + 8 else pts);
          pts = (if dup_penalty = 0 then pts + 10 else pts);
          long_desc = (200 \<le> length desc);
          chapters = has_chapters desc;
          links = has_link desc;
          pts = (if long_desc then pts + 15 else pts);
          pts = (if chapters then pts + 10 else pts);
          pts = (if links then pts + 10 else pts);
          lr = max_zero (or_zero like_rate0);
          cr = max_zero (or_zero comment_rate0);
          pts = pts + py_int (py_min lr 5 / 5 * 18);
          pts = pts + py_int (py_min cr 1 / 1 * 7)
      in (min 100 pts,
          \<lparr>note_title_len_ok = ok_len, note_power_word = pw, note_has_number = num,
           note_dup_penalty = dup_penalty, note_desc_len_ok = long_desc,
           note_chapters = chapters, note_links = links,
           note_like_rate = lr, note_comment_rate = cr\<rparr>))"

definition scoring_rate :: "pyfloat \<Rightarrow> real" where
  \<comment> \<open>a rate as the rubric reads it: missing or negative counts as 0\<close>
  "scoring_rate x = (case x of Num v \<Rightarrow> max 0 v | _ \<Rightarrow> 0)"

definition award :: "bool \<Rightarrow> int \<Rightarrow> int" where
  \<comment> \<open>the points of one rubric check\<close>
  "award c p = (if c then p else 0)"

definition rubric_sum :: "string \<Rightarrow> string \<Rightarrow> pyfloat \<Rightarrow> pyfloat \<Rightarrow> int \<Rightarrow> int" where
  \<comment> \<open>the rubric as the specification words it\<close>
  "rubric_sum t d lr cr dup =
       award (45 \<le> length t \<and> length t \<le> 70) 12
     + award (POWER_search t) 10
     + award (has_number t) 8
     + award (dup = 0) 10
     + award (200 \<le> length d) 15
     + award (has_chapters d) 10
     + award (has_link d) 10
     + \<lfloor>min (scoring_rate lr) 5 / 5 * 18\<rfloor>
     + \<lfloor>min (scoring_rate cr) 1 / 1 * 7\<rfloor>"

section \<open>Title diagnostics: the duplicate-word penalty\<close>

definition is_tok :: "char \<Rightarrow> bool" where
  \<comment> \<open>the class \<open>[a-z']\<close>\<close>
  "is_tok c = ((97 \<le> code c \<and> code c \<le> 122) \<or> c = CHR 0x27)"

definition flush :: "string \<Rightarrow> string list" where
  \<comment> \<open>A run of the class is a match of \<open>[a-z']{3,}\<close> when it has three characters or more.\<close>
  "flush cur = (if 3 \<le> length cur then [cur] else [])"

fun findall_tok :: "string \<Rightarrow> string \<Rightarrow> string list" where
  \<comment> \<open>\<open>re.findall(r"[a-z']{3,}", s)\<close>; the first argument is the run read so far.\<close>
  "findall_tok cur [] = flush cur"
| "findall_tok cur (c # cs) =
     (if is_tok c then findall_tok (cur @ [c]) cs else flush cur @ findall_tok [] cs)"

fun unique_acc :: "'a list \<Rightarrow> 'a list \<Rightarrow> 'a list" where
  \<comment> \<open>the distinct values in order of first appearance\<close>
  "unique_acc seen [] = seen"
| "unique_acc seen (x # xs) =
     (if x \<in> set seen then unique_acc seen xs else unique_acc (seen @ [x]) xs)"

definition value_counts :: "'a list \<Rightarrow> ('a \<times> nat) list" where
  \<comment> \<open>\<open>pd.Series(ws).value_counts()\<close>: one entry per distinct value, largest count first.\<close>
  "value_counts ws =
     sort_key (\<lambda>e. - int (snd e)) (map (\<lambda>w. (w, count_list ws w)) (unique_acc [] ws))"

definition dup_pen :: "string \<Rightarrow> int" where
  "dup_pen s =
     (let words = findall_tok [] (lower s)
      in if words = [] then 0
         else (let vc = value_counts words;
                   peak = (if vc \<noteq> [] then int (snd (hd vc)) else 0)
               in max (peak - 2) 0))"

definition tokens :: "string \<Rightarrow> string list" where
  \<comment> \<open>the raw tokens of a title, as the penalty reads them\<close>
  "tokens s = findall_tok [] (lower s)"

definition peak_word_frequency :: "string list \<Rightarrow> nat" where
  \<comment> \<open>the number of occurrences of a most frequent token; 0 when there is none\<close>
  "peak_word_frequency ws = (if ws = [] then 0 else Max (count_list ws ` set ws))"

section \<open>Improvement advisor\<close>

text \<open>The texts of the tips are given as the UTF-8 bytes of the source's literals.\<close>

definition TIP_NUMBER :: string where
  "TIP_NUMBER = ''Add one number to the title to anchor the promise.''"

definition TIP_LENGTHEN :: string where
  "TIP_LENGTHEN = ''Lengthen title to ~55 chars with a clear outcome.''"

definition TIP_TRIM :: string where
  "TIP_TRIM = ''Trim title to <=70 chars. Remove filler words.''"

definition TIP_POWER :: string where
  "TIP_POWER =
     ''Add one power word (e.g., '' @ [CHR 0xE2, CHR 0x80, CHR 0x98] @ ''ultimate''
     @ [CHR 0xE2, CHR 0x80, CHR 0x99] @ '', '' @ [CHR 0xE2, CHR 0x80, CHR 0x98] @ ''simple''
     @ [CHR 0xE2, CHR 0x80, CHR 0x99] @ '', '' @ [CHR 0xE2, CHR 0x80, CHR 0x98] @ ''proven''
     @ [CHR 0xE2, CHR 0x80, CHR 0x99] @ '').''"

definition TIP_DESC :: string where
  "TIP_DESC =
     ''Extend description to >200 chars with 1'' @ [CHR 0xE2, CHR 0x80, CHR 0x93]
     @ ''2 links near the top.''"

definition TIP_CHAPTERS :: string where
  "TIP_CHAPTERS = ''Add chapters (timestamps) for navigation.''"

definition TIP_LINK :: string where
  "TIP_LINK = ''Include one clear CTA link in the first 3 lines.''"

definition TIP_COMMENTS :: string where
  "TIP_COMMENTS = ''Pin a question and reply to the first 5 comments.''"

definition TIP_THUMBNAIL :: string where
  "TIP_THUMBNAIL =
     ''Test a stronger thumbnail: big face + 2'' @ [CHR 0xE2, CHR 0x80, CHR 0x93]
     @ ''4 words + strong contrast.''"

definition TIP_FALLBACK :: string where
  "TIP_FALLBACK = ''Solid baseline. Split-test title and thumbnail for 24h.''"

record video =
  v_title :: "string option"
  v_description :: "string option"
  v_views :: "int option"
  v_comments :: "int option"

definition int_or_zero :: "int option \<Rightarrow> int" where
  \<comment> \<open>\<open>int(v.get(key) or 0)\<close>\<close>
  "int_or_zero x = (case x of None \<Rightarrow> 0 | Some n \<Rightarrow> n)"

definition py_max :: "real \<Rightarrow> real \<Rightarrow> real" where
  \<comment> \<open>\<open>max(a, b)\<close> is \<open>b\<close> only when \<open>b > a\<close>.\<close>
  "py_max a b = (if a < b then b else a)"

fun dedup_loop :: "string list \<Rightarrow> string list \<Rightarrow> string list \<Rightarrow> string list" where
  \<comment> \<open>the loop over \<open>tips\<close>, with \<open>seen\<close> and \<open>out\<close>; it breaks when \<open>out\<close> holds six tips\<close>
  "dedup_loop seen out [] = out"
| "dedup_loop seen out (t # ts) =
     (let seen' = (if t \<in> set seen then seen else t # seen);
          out' = (if t \<in> set seen then out else out @ [t])
      in if length out' = 6 then out' else dedup_loop seen' out' ts)"

definition improvements_for_video :: "video \<Rightarrow> int \<Rightarrow> string list" where
  "improvements_for_video v median_views =
     (let ttl = or_empty (v_title v);
          desc = or_empty (v_description v);
          vws = int_or_zero (v_views v);
          cmts = int_or_zero (v_comments v);
          tips = [];
          tips = (if \<not> list_ex isdigit ttl then tips @ [TIP_NUMBER] else tips);
          tips = (if length ttl < 45 then tips @ [TIP_LENGTHEN]
                  else if 70 < length ttl then tips @ [TIP_TRIM] else tips);
          tips = (if \<not> POWER_search ttl then tips @ [TIP_POWER] else tips);
          tips = (if length desc < 200 then tips @ [TIP_DESC] else tips);
          tips = (if \<not> has_chapters desc then tips @ [TIP_CHAPTERS] else tips);
          tips = (if \<not> has_link desc then tips @ [TIP_LINK] else tips);
          tips = (if cmts = 0 then tips @ [TIP_COMMENTS] else tips);
          tips = (if of_int vws < py_max 1000 (0.8 * of_int median_views)
                  then tips @ [TIP_THUMBNAIL] else tips);
          out = dedup_loop [] [] tips
      in if out = [] then [TIP_FALLBACK] else out)"

definition rule_table :: "video \<Rightarrow> int \<Rightarrow> (bool \<times> string) list" where
  \<comment> \<open>the rule checks in the order the advisor evaluates them, each with its tip\<close>
  "rule_table v median_views =
     (let ttl = or_empty (v_title v); desc = or_empty (v_description v)
      in [(\<not> has_number ttl, TIP_NUMBER),
          (length ttl < 45, TIP_LENGTHEN),
          (70 < length ttl, TIP_TRIM),
          (\<not> POWER_search ttl, TIP_POWER),
          (length desc < 200, TIP_DESC),
          (\<not> has_chapters desc, TIP_CHAPTERS),
          (\<not> has_link desc, TIP_LINK),
          (int_or_zero (v_comments v) = 0, TIP_COMMENTS),
          (real_of_int (int_or_zero (v_views v)) < max 1000 (0.8 * real_of_int median_views),
           TIP_THUMBNAIL)])"

definition fired_tips :: "video \<Rightarrow> int \<Rightarrow> string list" where
  "fired_tips v median_views = map snd (filter fst (rule_table v median_views))"

definition tip_if :: "bool \<Rightarrow> string \<Rightarrow> string list" where
  \<comment> \<open>the tip of one rule check, when it fires\<close>
  "tip_if c t = (if c then [t] else [])"

section \<open>Retention insight extractor\<close>

record retention_row =
  elapsedVideoTimeRatio :: real
  audienceWatchRatio :: "real option"

fun diff_from :: "real option \<Rightarrow> real option list \<Rightarrow> real option list" where
  \<comment> \<open>\<open>Series.diff()\<close>: each cell minus the one before; the first cell has none before it.\<close>
  "diff_from prev [] = []"
| "diff_from prev (x # xs) =
     (case (prev, x) of (Some a, Some b) \<Rightarrow> Some (b - a) | _ \<Rightarrow> None) # diff_from x xs"

definition fillna :: "real \<Rightarrow> real option list \<Rightarrow> real list" where
  "fillna d xs = map (\<lambda>x. case x of None \<Rightarrow> d | Some v \<Rightarrow> v) xs"

definition with_drop :: "retention_row list \<Rightarrow> (retention_row \<times> real) list" where
  \<comment> \<open>the frame with its new column \<open>drop\<close>\<close>
  "with_drop df = zip df (fillna 0 (diff_from None (map audienceWatchRatio df)))"

definition nsmallest :: "int \<Rightarrow> (retention_row \<times> real) list \<Rightarrow> (retention_row \<times> real) list" where
  \<comment> \<open>\<open>d.nsmallest(k, "drop")\<close>: the \<open>k\<close> rows of least drop, least first, rows of equal
      drop in the order of the frame; no row when \<open>k \<le> 0\<close>.\<close>
  "nsmallest k d = take (nat k) (sort_key snd d)"

definition digit_char :: "nat \<Rightarrow> char" where
  "digit_char n = char_of (48 + n)"

function show_nat :: "nat \<Rightarrow> string" where
  "show_nat n = (if n < 10 then [digit_char n] else show_nat (n div 10) @ [digit_char (n mod 10)])"
  by pat_completeness auto
termination
  by (relation "measure id") auto

definition show_int :: "int \<Rightarrow> string" where
  \<comment> \<open>\<open>f"{t}"\<close> for an int\<close>
  "show_int i = (if i < 0 then CHR ''-'' # show_nat (nat (- i)) else show_nat (nat i))"

definition format_1f :: "real \<Rightarrow> string" where
  \<comment> \<open>\<open>f"{pct:.1f}"\<close> for a value that is not negative: one decimal, ties to even\<close>
  "format_1f x =
     (let tenths = nat (round_half_even (x * 10))
      in show_nat (tenths div 10) @ ''.'' @ [digit_char (tenths mod 10)])"

definition TIP_HOOK :: string where
  "TIP_HOOK =
     ''open with a stronger hook, quick payoff in 0'' @ [CHR 0xE2, CHR 0x80, CHR 0x93] @ ''10s''"

definition TIP_INTRO :: string where
  "TIP_INTRO = ''tighten intro, cut filler, show the outcome earlier''"

definition TIP_RESTATE :: string where
  "TIP_RESTATE = ''restate value, add motion/B-roll, remove a dead sentence''"

definition TIP_PACING :: string where
  "TIP_PACING = ''refresh pacing or add pattern-break (graphic, jump-cut, reveal)''"

definition insight :: "int \<Rightarrow> retention_row \<times> real \<Rightarrow> string" where
  \<comment> \<open>the body of the loop over the selected rows\<close>
  "insight video_secs r =
     (let t = round_half_even (elapsedVideoTimeRatio (fst r) * of_int video_secs);
          pct = py_max 0 (- snd r * 100);
          tip = (if t \<le> 10 then TIP_HOOK
                 else if t \<le> 30 then TIP_INTRO
                 else if t \<le> 60 then TIP_RESTATE
                 else TIP_PACING)
      in ''~'' @ format_1f pct @ ''% viewers dropped near '' @ show_int t @ ''s ''
         @ [CHR 0xE2, CHR 0x86, CHR 0x92] @ '' '' @ tip @ ''.'')"

definition top_drop_insights :: "retention_row list \<Rightarrow> int \<Rightarrow> int \<Rightarrow> string list" where
  "top_drop_insights df video_secs k =
     (if df = [] \<or> video_secs \<le> 0 then []
      else (let d = with_drop df; big = nsmallest k d in map (insight video_secs) big))"

definition negative_drops :: "retention_row list \<Rightarrow> nat" where
  \<comment> \<open>how many inter-point changes of the watch ratio are negative\<close>
  "negative_drops df = length (filter (\<lambda>e. snd e < 0) (with_drop df))"

section \<open>Cadence analyzer\<close>


definition mean :: "real list \<Rightarrow> real" where
  "mean xs = sum_list xs / real (length xs)"
















section \<open>View velocity and title diagnostics\<close>

text \<open>
  \<open>view_velocity\<close> takes the frame alone and reads the wall clock itself, by
  \<open>datetime.now(timezone.utc)\<close>.  The clock is not among its parameters; it belongs to the
  world the call runs in, which the model passes along as the first argument of every
  function that reads it.
\<close>

record world =
  clock :: real






section \<open>Health scorer\<close>









section \<open>Channel health in the report\<close>

record report_video =
  rv_views :: pyfloat
  rv_likes :: pyfloat
  rv_comments :: pyfloat
  rv_watch_time_hours :: pyfloat
  rv_ctr :: pyfloat
  rv_seo_score :: pyfloat

fun nums :: "pyfloat list \<Rightarrow> real list" where
  \<comment> \<open>the entries \<open>_avg\<close> keeps: numbers, neither \<open>None\<close> nor NaN\<close>
  "nums [] = []"
| "nums (Num v # xs) = v # nums xs"
| "nums (_ # xs) = nums xs"

definition avg :: "pyfloat list \<Rightarrow> real" where
  \<comment> \<open>\<open>_avg(seq)\<close>\<close>
  "avg xs = (if nums xs = [] then 0 else mean (nums xs))"

definition float_or_zero :: "pyfloat \<Rightarrow> real option" where
  \<comment> \<open>\<open>float(x or 0)\<close>; the result is NaN for NaN\<close>
  "float_or_zero x = (case x of PyNone \<Rightarrow> Some 0 | NaN \<Rightarrow> None | Num v \<Rightarrow> Some v)"

fun er_list :: "report_video list \<Rightarrow> pyfloat list" where
  \<comment> \<open>the engagement rates of the videos with \<open>views > 0\<close>\<close>
  "er_list [] = []"
| "er_list (v # vs) =
     (case float_or_zero (rv_views v) of
        None \<Rightarrow> er_list vs
      | Some vw \<Rightarrow>
          if 0 < vw then
            (case (float_or_zero (rv_likes v), float_or_zero (rv_comments v)) of
               (Some l, Some c) \<Rightarrow> Num ((l + c) / vw * 100)
             | _ \<Rightarrow> NaN) # er_list vs
          else er_list vs)"

datatype pillar = Content_Optimization | Engagement | Consistency | SEO_Discoverability | Retention

definition weights :: "pillar \<Rightarrow> real" where
  "weights k =
     (case k of Content_Optimization \<Rightarrow> 25 | Engagement \<Rightarrow> 20 | Consistency \<Rightarrow> 15
      | SEO_Discoverability \<Rightarrow> 20 | Retention \<Rightarrow> 20)"

definition pillars :: "report_video list \<Rightarrow> (pillar \<times> real) list" where
  \<comment> \<open>the dict \<open>pillars\<close>, in the order its keys are inserted\<close>
  "pillars videos =
     (let avg_wt = avg (map rv_watch_time_hours videos);
          avg_ctr = avg (map rv_ctr videos);
          avg_seo = avg (map rv_seo_score videos);
          er = er_list videos
      in [(Content_Optimization, py_min 100 avg_seo),
          (Engagement,
             if er \<noteq> [] then py_max 0 (py_min 100 (avg er * 2))
             else py_max 0 (py_min 100 avg_ctr)),
          (Consistency, 70),
          (SEO_Discoverability,
             if avg_ctr \<noteq> 0 then py_min 100 (avg_ctr * 10) else py_min 100 (avg_seo * 0.9)),
          (Retention, py_min 100 (50 + avg_wt * 5))])"

definition overall :: "report_video list \<Rightarrow> real" where
  \<comment> \<open>\<open>sum(pillars[k] * weights[k] for k in pillars) / 100.0\<close>\<close>
  "overall videos = sum_list (map (\<lambda>(k, p). p * weights k) (pillars videos)) / 100"

definition pillar_score :: "report_video list \<Rightarrow> pillar \<Rightarrow> real" where
  \<comment> \<open>\<open>pillars[k]\<close>\<close>
  "pillar_score videos k = (case map_of (pillars videos) k of Some p \<Rightarrow> p | None \<Rightarrow> 0)"

section \<open>Sample inputs\<close>

definition sample_row :: "int \<Rightarrow> real option \<Rightarrow> real option \<Rightarrow> row" where
  "sample_row v l c =
     \<lparr>col_title = Some ''A title'', col_description = None, col_views = v, col_likes = l,
      col_comments = c, col_published = None, col_age_min = None, col_views_per_min = None,
      col_like_rate = None, col_comment_rate = None, col_title_len = 0,
      col_title_ok_len = False, col_dup_word_penalty = 0\<rparr>"

definition sample_curve :: "retention_row list" where
  "sample_curve =
     [\<lparr>elapsedVideoTimeRatio = 0, audienceWatchRatio = Some 1\<rparr>,
      \<lparr>elapsedVideoTimeRatio = 0.05, audienceWatchRatio = Some 0.95\<rparr>,
      \<lparr>elapsedVideoTimeRatio = 0.10, audienceWatchRatio = Some 0.40\<rparr>]"


text \<open>A world with more state than the clock, such as the seed of a random generator.\<close>

record seeded_world = world +
  seed :: nat



section \<open>Properties of the SEO scorer\<close>

lemma like_band:
  "0 \<le> x \<Longrightarrow> py_int (py_min x 5 / 5 * 18) = \<lfloor>min x 5 / 5 * 18\<rfloor>
     \<and> 0 \<le> \<lfloor>min x 5 / 5 * 18\<rfloor> \<and> \<lfloor>min x 5 / 5 * 18\<rfloor> \<le> 18"
  by (auto simp: py_int_def py_min_def min_def floor_le_iff le_floor_iff)

lemma comment_band:
  "0 \<le> x \<Longrightarrow> py_int (py_min x 1 / 1 * 7) = \<lfloor>min x 1 / 1 * 7\<rfloor>
     \<and> 0 \<le> \<lfloor>min x 1 / 1 * 7\<rfloor> \<and> \<lfloor>min x 1 / 1 * 7\<rfloor> \<le> 7"
  by (auto simp: py_int_def py_min_def min_def floor_le_iff le_floor_iff)

lemma max_zero_scoring: "max_zero (or_zero x) = scoring_rate x \<and> 0 \<le> scoring_rate x"
  by (cases x) (auto simp: max_zero_def or_zero_def scoring_rate_def)

lemma award_step: "(if c then pts + k else pts) = pts + award c k"
  by (simp add: award_def)

lemma award_range:
  "0 \<le> award c 12 \<and> award c 12 \<le> 12" "0 \<le> award c 10 \<and> award c 10 \<le> 10"
  "0 \<le> award c 8 \<and> award c 8 \<le> 8" "0 \<le> award c 15 \<and> award c 15 \<le> 15"
  by (simp_all add: award_def)

lemma rubric_sum_bounds: "0 \<le> rubric_sum t d l c p \<and> rubric_sum t d l c p \<le> 100"
proof -
  have l: "0 \<le> \<lfloor>min (scoring_rate l) 5 / 5 * 18\<rfloor>
      \<and> \<lfloor>min (scoring_rate l) 5 / 5 * 18\<rfloor> \<le> 18"
    using like_band [of "scoring_rate l"] max_zero_scoring [of l] by simp
  have c: "0 \<le> \<lfloor>min (scoring_rate c) 1 / 1 * 7\<rfloor>
      \<and> \<lfloor>min (scoring_rate c) 1 / 1 * 7\<rfloor> \<le> 7"
    using comment_band [of "scoring_rate c"] max_zero_scoring [of c] by simp
  note a = award_range(1) [of "45 \<le> length t \<and> length t \<le> 70"]
    award_range(2) [of "POWER_search t"] award_range(3) [of "has_number t"]
    award_range(2) [of "p = 0"] award_range(4) [of "200 \<le> length d"]
    award_range(2) [of "has_chapters d"] award_range(2) [of "has_link d"]
  show ?thesis unfolding rubric_sum_def using l c a by linarith
qed

lemma seo_points:
  "fst (seo_score_row ttl dsc l c p) = min 100 (rubric_sum (or_empty ttl) (or_empty dsc) l c p)"
proof -
  have l: "py_int (py_min (scoring_rate l) 5 / 5 * 18) = \<lfloor>min (scoring_rate l) 5 / 5 * 18\<rfloor>"
    using like_band [of "scoring_rate l"] max_zero_scoring [of l] by simp
  have c: "py_int (py_min (scoring_rate c) 1 / 1 * 7) = \<lfloor>min (scoring_rate c) 1 / 1 * 7\<rfloor>"
    using comment_band [of "scoring_rate c"] max_zero_scoring [of c] by simp
  show ?thesis
    unfolding seo_score_row_def rubric_sum_def Let_def fst_conv
    by (simp only: award_step max_zero_scoring l c add_0 award_def [symmetric])
qed

text \<open>
  C1.  For every title, description, like rate, comment rate and duplicate penalty, the
  score of \<open>seo_score_row\<close> is the sum of the rubric awards: title +12 for a length of
  45 to 70, +10 for a power word, +8 for a digit, +10 for a zero duplicate penalty;
  description +15 for 200 characters or more, +10 for a chapter marker, +10 for a link;
  engagement \<open>floor(min(like_rate, 5) / 5 * 18) + floor(min(comment_rate, 1) / 1 * 7)\<close>,
  a missing (None or NaN) or negative rate counting as 0.  The sum never exceeds 100, so
  the clamp leaves it as it is, and it is never negative.
\<close>

theorem seo_score_row_rubric:
  "fst (seo_score_row ttl dsc lr cr dup)
     = rubric_sum (or_empty ttl) (or_empty dsc) lr cr dup
   \<and> 0 \<le> fst (seo_score_row ttl dsc lr cr dup)
   \<and> fst (seo_score_row ttl dsc lr cr dup) \<le> 100"
  using seo_points [of ttl dsc lr cr dup]
    rubric_sum_bounds [of "or_empty ttl" "or_empty dsc" lr cr dup]
  by simp

text \<open>
  The specification's example: a title of 58 characters with a power word and a digit, no
  duplicate penalty, a description of 250 characters with a chapter marker and a link, a
  like rate of 6 and a comment rate of 2 score 100.
\<close>

lemma seo_score_row_example:
  "fst (seo_score_row
     (Some ''7 simple ways to brew better espresso at home this weekend'')
     (Some (''0:00 intro https://example.com '' @ replicate 219 (CHR ''x'')))
     (Num 6) (Num 2) 0) = 100"
  by code_simp

section \<open>Properties of the duplicate-word penalty\<close>

lemma unique_acc_set: "set (unique_acc seen xs) = set seen \<union> set xs"
  by (induction xs arbitrary: seen) auto

lemma value_counts_set: "set (value_counts ws) = (\<lambda>w. (w, count_list ws w)) ` set ws"
  by (simp add: value_counts_def unique_acc_set)

lemma hd_sort_key_least:
  assumes "xs \<noteq> []"
  shows "hd (sort_key f xs) \<in> set xs \<and> (\<forall>y\<in>set xs. f (hd (sort_key f xs)) \<le> f y)"
proof -
  let ?ys = "sort_key f xs"
  have ne: "?ys \<noteq> []" using assms by (metis length_sort list.size(3) length_0_conv)
  then obtain z zs where ys: "?ys = z # zs" by (cases ?ys) auto
  have "sorted (map f ?ys)" by simp
  then have "\<forall>y\<in>set ?ys. f z \<le> f y" unfolding ys by auto
  moreover have "set ?ys = set xs" by simp
  moreover have "z \<in> set ?ys" unfolding ys by simp
  ultimately show ?thesis unfolding ys by auto
qed

lemma peak_is_max:
  assumes "ws \<noteq> []"
  shows "value_counts ws \<noteq> [] \<and> snd (hd (value_counts ws)) = Max (count_list ws ` set ws)"
proof -
  let ?es = "map (\<lambda>w. (w, count_list ws w)) (unique_acc [] ws)"
  let ?k = "\<lambda>e::'a \<times> nat. - int (snd e)"
  have set_es: "set ?es = (\<lambda>w. (w, count_list ws w)) ` set ws"
    by (simp add: unique_acc_set)
  have ne: "?es \<noteq> []" using assms set_es by (metis empty_set image_is_empty set_empty)
  have vc: "value_counts ws = sort_key ?k ?es" by (simp add: value_counts_def)
  from hd_sort_key_least [OF ne, of ?k]
  have h: "hd (value_counts ws) \<in> set ?es"
    and l: "\<forall>y\<in>set ?es. ?k (hd (value_counts ws)) \<le> ?k y"
    unfolding vc by blast+
  have mem: "snd (hd (value_counts ws)) \<in> count_list ws ` set ws"
    using h set_es by force
  have ub: "\<forall>n\<in>count_list ws ` set ws. n \<le> snd (hd (value_counts ws))"
    using l set_es by force
  have "Max (count_list ws ` set ws) = snd (hd (value_counts ws))"
    by (rule Max_eqI) (use mem ub in auto)
  moreover have "value_counts ws \<noteq> []" unfolding vc using ne
    by (metis length_sort length_0_conv)
  ultimately show ?thesis by simp
qed

lemma dup_pen_peak: "dup_pen s = max 0 (int (peak_word_frequency (tokens s)) - 2)"
proof (cases "tokens s = []")
  case True
  then show ?thesis by (simp add: dup_pen_def tokens_def peak_word_frequency_def)
next
  case False
  from peak_is_max [OF False] False show ?thesis
    by (simp add: dup_pen_def tokens_def peak_word_frequency_def Let_def max.commute)
qed

lemma peak_le: "(\<forall>w. count_list ws w \<le> n) \<Longrightarrow> peak_word_frequency ws \<le> n"
  by (simp add: peak_word_frequency_def)

lemma peak_eq:
  assumes "w \<in> set ws" "count_list ws w = n" "\<forall>w'. count_list ws w' \<le> n"
  shows "peak_word_frequency ws = n"
proof -
  have "ws \<noteq> []" using assms(1) by auto
  moreover have "Max (count_list ws ` set ws) = n"
    by (rule Max_eqI) (use assms in auto)
  ultimately show ?thesis by (simp add: peak_word_frequency_def)
qed

lemma findall_tok_shape:
  "list_all is_tok cur \<Longrightarrow> t \<in> set (findall_tok cur s) \<Longrightarrow> 3 \<le> length t \<and> list_all is_tok t"
proof (induction s arbitrary: cur)
  case Nil
  then show ?case by (auto simp: flush_def split: if_splits)
next
  case (Cons c cs)
  show ?case
  proof (cases "is_tok c")
    case True
    with Cons.prems have "t \<in> set (findall_tok (cur @ [c]) cs)" by simp
    moreover have "list_all is_tok (cur @ [c])" using True Cons.prems(1) by simp
    ultimately show ?thesis using Cons.IH by blast
  next
    case False
    with Cons.prems have "t \<in> set (flush cur) \<or> t \<in> set (findall_tok [] cs)" by simp
    then show ?thesis
    proof
      assume "t \<in> set (flush cur)"
      then show ?thesis using Cons.prems(1) by (auto simp: flush_def split: if_splits)
    next
      assume "t \<in> set (findall_tok [] cs)"
      then show ?thesis using Cons.IH [of "[]"] by simp
    qed
  qed
qed

text \<open>
  C6.  The duplicate-word penalty of a title is \<open>max(0, peak_word_frequency - 2)\<close>, the
  peak taken over the raw tokens of the lower-cased title: runs of three or more characters
  among the letters a to z and the apostrophe, none of them filtered out.  Hence the
  penalty is 0 when no token occurs more than twice, and \<open>n - 2\<close> when a most frequent
  token occurs \<open>n > 2\<close> times.
\<close>

theorem dup_pen_peak_frequency:
  "dup_pen s = max 0 (int (peak_word_frequency (tokens s)) - 2)
   \<and> ((\<forall>w. count_list (tokens s) w \<le> 2) \<longrightarrow> dup_pen s = 0)
   \<and> (w \<in> set (tokens s) \<and> count_list (tokens s) w = n \<and> 2 < n
        \<and> (\<forall>w'. count_list (tokens s) w' \<le> n) \<longrightarrow> dup_pen s = int n - 2)
   \<and> (\<forall>t\<in>set (tokens s). 3 \<le> length t \<and> list_all is_tok t)"
proof (intro conjI impI ballI)
  show "dup_pen s = max 0 (int (peak_word_frequency (tokens s)) - 2)"
    by (rule dup_pen_peak)
next
  assume "\<forall>w. count_list (tokens s) w \<le> 2"
  then have "peak_word_frequency (tokens s) \<le> 2" by (rule peak_le)
  then show "dup_pen s = 0" by (simp add: dup_pen_peak)
next
  assume h: "w \<in> set (tokens s) \<and> count_list (tokens s) w = n \<and> 2 < n
    \<and> (\<forall>w'. count_list (tokens s) w' \<le> n)"
  then have "peak_word_frequency (tokens s) = n" using peak_eq [of w "tokens s" n] by blast
  then show "dup_pen s = int n - 2" using h by (simp add: dup_pen_peak)
next
  fix t assume "t \<in> set (tokens s)"
  then show "3 \<le> length t" using findall_tok_shape [of "[]" t "lower s"]
    by (simp add: tokens_def)
next
  fix t assume "t \<in> set (tokens s)"
  then show "list_all is_tok t" using findall_tok_shape [of "[]" t "lower s"]
    by (simp add: tokens_def)
qed

lemma tokens_example:
  "tokens ''Win big: win, WIN and win the day'' = [''win'', ''big'', ''win'', ''win'', ''and'', ''win'', ''the'', ''day'']"
  by code_simp

theorem dup_pen_peak_frequency_witness:
  "(''win'' \<in> set (tokens ''Win big: win, WIN and win the day'')
     \<and> count_list (tokens ''Win big: win, WIN and win the day'') ''win'' = 4 \<and> (2::nat) < 4
     \<and> (\<forall>w'. count_list (tokens ''Win big: win, WIN and win the day'') w' \<le> 4))
   \<and> dup_pen ''Win big: win, WIN and win the day'' = 2
   \<and> (\<forall>w. count_list (tokens ''The day the music'') w \<le> 2)
   \<and> dup_pen ''The day the music'' = 0"
proof -
  have t2: "tokens ''The day the music'' = [''the'', ''day'', ''the'', ''music'']"
    by code_simp
  have h1: "''win'' \<in> set (tokens ''Win big: win, WIN and win the day'')
     \<and> count_list (tokens ''Win big: win, WIN and win the day'') ''win'' = 4 \<and> (2::nat) < 4
     \<and> (\<forall>w'. count_list (tokens ''Win big: win, WIN and win the day'') w' \<le> 4)"
    unfolding tokens_example by auto
  have h2: "\<forall>w. count_list (tokens ''The day the music'') w \<le> 2"
    unfolding t2 by auto
  from dup_pen_peak_frequency [of "''Win big: win, WIN and win the day''" "''win''" 4] h1
  have c1: "dup_pen ''Win big: win, WIN and win the day'' = 2" by simp
  from dup_pen_peak_frequency [of "''The day the music''" "''x''" 0] h2
  have c2: "dup_pen ''The day the music'' = 0" by blast
  show ?thesis using h1 h2 c1 c2 by blast
qed

section \<open>Properties of the improvement advisor\<close>

lemma tip_step: "(if c then tips @ [t] else tips) = tips @ tip_if c t"
  by (simp add: tip_if_def)

lemma tip_step2:
  "(if a < (45::nat) then tips @ [x] else tips @ tip_if (70 < a) y)
     = tips @ tip_if (a < 45) x @ tip_if (70 < a) y"
  by (simp add: tip_if_def)

lemma fired_step:
  "map snd (filter fst ((c, t) # rs)) = tip_if c t @ map snd (filter fst rs)"
  by (simp add: tip_if_def)

lemma py_max_max: "py_max a b = max a b"
  by (simp add: py_max_def max_def)

lemma tips_distinct:
  "distinct [TIP_NUMBER, TIP_LENGTHEN, TIP_TRIM, TIP_POWER, TIP_DESC, TIP_CHAPTERS, TIP_LINK,
     TIP_COMMENTS, TIP_THUMBNAIL]"
  by (simp add: TIP_NUMBER_def TIP_LENGTHEN_def TIP_TRIM_def TIP_POWER_def TIP_DESC_def
      TIP_CHAPTERS_def TIP_LINK_def TIP_COMMENTS_def TIP_THUMBNAIL_def)

lemma fired_tips_distinct: "distinct (fired_tips v m)"
proof -
  have "map snd (rule_table v m) = [TIP_NUMBER, TIP_LENGTHEN, TIP_TRIM, TIP_POWER, TIP_DESC,
      TIP_CHAPTERS, TIP_LINK, TIP_COMMENTS, TIP_THUMBNAIL]"
    by (simp add: rule_table_def Let_def)
  then have "distinct (map snd (rule_table v m))" using tips_distinct by simp
  then show ?thesis unfolding fired_tips_def by (rule distinct_map_filter)
qed

lemma dedup_loop_take:
  "distinct ts \<Longrightarrow> set seen \<inter> set ts = {} \<Longrightarrow> length out < 6
     \<Longrightarrow> dedup_loop seen out ts = out @ take (6 - length out) ts"
proof (induction ts arbitrary: seen out)
  case Nil
  then show ?case by simp
next
  case (Cons t ts)
  have notin: "t \<notin> set seen" using Cons.prems(2) by auto
  show ?case
  proof (cases "length out = 5")
    case True
    then show ?thesis using notin by (simp add: Let_def)
  next
    case False
    then have lt: "length (out @ [t]) < 6" using Cons.prems(3) by simp
    have d: "distinct ts" and s: "set (t # seen) \<inter> set ts = {}"
      using Cons.prems(1,2) by auto
    have "dedup_loop seen out (t # ts) = dedup_loop (t # seen) (out @ [t]) ts"
      using notin False by (simp add: Let_def)
    also have "\<dots> = (out @ [t]) @ take (6 - length (out @ [t])) ts"
      by (rule Cons.IH [OF d s lt])
    also have "\<dots> = out @ take (6 - length out) (t # ts)"
      using Cons.prems(3) by (simp add: take_Cons')
    finally show ?thesis .
  qed
qed

lemma fired_tips_chain:
  "fired_tips v m =
     tip_if (\<not> list_ex isdigit (or_empty (v_title v))) TIP_NUMBER
     @ tip_if (length (or_empty (v_title v)) < 45) TIP_LENGTHEN
     @ tip_if (70 < length (or_empty (v_title v))) TIP_TRIM
     @ tip_if (\<not> POWER_search (or_empty (v_title v))) TIP_POWER
     @ tip_if (length (or_empty (v_description v)) < 200) TIP_DESC
     @ tip_if (\<not> has_chapters (or_empty (v_description v))) TIP_CHAPTERS
     @ tip_if (\<not> has_link (or_empty (v_description v))) TIP_LINK
     @ tip_if (int_or_zero (v_comments v) = 0) TIP_COMMENTS
     @ tip_if (real_of_int (int_or_zero (v_views v)) < py_max 1000 (0.8 * real_of_int m))
         TIP_THUMBNAIL"
  unfolding fired_tips_def rule_table_def Let_def
  by (simp only: fired_step py_max_max has_number_def list.map(1) filter.simps(1) append_Nil2)

lemma improvements_unfold:
  "improvements_for_video v m =
     (let out = dedup_loop [] [] (fired_tips v m) in if out = [] then [TIP_FALLBACK] else out)"
  unfolding improvements_for_video_def fired_tips_chain
  apply (simp only: Let_def)
  apply (simp only: tip_step tip_step2 tip_if_def [symmetric] append_Nil)
  apply (simp only: append_assoc)
  done

text \<open>
  C7.  For every video record and median view count, \<open>improvements_for_video\<close> returns
  the tips of the rules that fire, in the order of the rule checks (no digit in the title,
  title shorter than 45 or longer than 70, no power word, description shorter than 200, no
  chapters, no link, zero comments, views below \<open>max(1000, 0.8 * median_views)\<close>), cut
  after six, without repetition; when no rule fires it returns the one fallback tip.
\<close>

theorem improvements_for_video_tips:
  "improvements_for_video v m =
     (if fired_tips v m = [] then [TIP_FALLBACK] else take 6 (fired_tips v m))
   \<and> distinct (improvements_for_video v m)
   \<and> length (improvements_for_video v m) \<le> 6
   \<and> improvements_for_video v m \<noteq> []"
proof -
  have loop: "dedup_loop [] [] (fired_tips v m) = take 6 (fired_tips v m)"
    using dedup_loop_take [OF fired_tips_distinct, of "[]" v m "[]"] by simp
  have eq: "improvements_for_video v m =
     (if fired_tips v m = [] then [TIP_FALLBACK] else take 6 (fired_tips v m))"
    unfolding improvements_unfold loop Let_def by simp
  have "distinct (take 6 (fired_tips v m))" using fired_tips_distinct by simp
  then show ?thesis unfolding eq by simp
qed

section \<open>Properties of the engagement rates\<close>

text \<open>
  C5.  For a row whose view count is 0, the like rate and the comment rate computed by
  \<open>engagement_rates\<close> are not available (NaN): never the value 0, and no division by
  zero.  For a view count above 0 they are \<open>count / views * 100\<close> rounded to two decimals
  (not available when the count itself is not).
\<close>

theorem engagement_rates_rate:
  "i < length df \<Longrightarrow>
     length (engagement_rates df) = length df
   \<and> (col_views (df ! i) = 0 \<longrightarrow>
        col_like_rate (engagement_rates df ! i) = None
      \<and> col_comment_rate (engagement_rates df ! i) = None
      \<and> col_like_rate (engagement_rates df ! i) \<noteq> Some 0
      \<and> col_comment_rate (engagement_rates df ! i) \<noteq> Some 0)
   \<and> (0 < col_views (df ! i) \<longrightarrow>
        col_like_rate (engagement_rates df ! i)
          = map_option (\<lambda>n. round_to 2 (n / of_int (col_views (df ! i)) * 100))
              (col_likes (df ! i))
      \<and> col_comment_rate (engagement_rates df ! i)
          = map_option (\<lambda>n. round_to 2 (n / of_int (col_views (df ! i)) * 100))
              (col_comments (df ! i)))"
  by (auto simp: engagement_rates_def rate_cell_def replace_zero_def split: option.splits)

theorem engagement_rates_rate_witness:
  "(0::nat) < length [sample_row 0 (Some 5) (Some 1), sample_row 300 (Some 5) None]
   \<and> col_like_rate (engagement_rates
        [sample_row 0 (Some 5) (Some 1), sample_row 300 (Some 5) None] ! 0) = None
   \<and> col_comment_rate (engagement_rates
        [sample_row 0 (Some 5) (Some 1), sample_row 300 (Some 5) None] ! 0) = None
   \<and> col_like_rate (engagement_rates
        [sample_row 0 (Some 5) (Some 1), sample_row 300 (Some 5) None] ! 1) = Some 1.67
   \<and> col_comment_rate (engagement_rates
        [sample_row 0 (Some 5) (Some 1), sample_row 300 (Some 5) None] ! 1) = None"
proof -
  let ?df = "[sample_row 0 (Some 5) (Some 1), sample_row 300 (Some 5) None]"
  have v: "col_views (?df ! 0) = 0" "0 < col_views (?df ! 1)" "col_views (?df ! 1) = 300"
    "col_likes (?df ! 1) = Some 5" "col_comments (?df ! 1) = None"
    by (simp_all add: sample_row_def)
  have l: "0 < length ?df" "1 < length ?df" by simp_all
  from engagement_rates_rate [OF l(1)] v(1)
  have a: "col_like_rate (engagement_rates ?df ! 0) = None
    \<and> col_comment_rate (engagement_rates ?df ! 0) = None" by blast
  from engagement_rates_rate [OF l(2)] v(2)
  have b: "col_like_rate (engagement_rates ?df ! 1)
          = map_option (\<lambda>n. round_to 2 (n / of_int (col_views (?df ! 1)) * 100))
              (col_likes (?df ! 1))
      \<and> col_comment_rate (engagement_rates ?df ! 1)
          = map_option (\<lambda>n. round_to 2 (n / of_int (col_views (?df ! 1)) * 100))
              (col_comments (?df ! 1))" by blast
  have c: "col_like_rate (engagement_rates ?df ! 1) = Some 1.67
      \<and> col_comment_rate (engagement_rates ?df ! 1) = None"
    using b unfolding v(3,4,5) by (simp add: round_to_def round_half_even_def Let_def)
  show ?thesis using a c l by blast
qed

section \<open>Properties of the retention insights\<close>

lemma length_diff_from: "length (diff_from p xs) = length xs"
  by (induction xs arbitrary: p) auto

lemma length_with_drop: "length (with_drop df) = length df"
  by (simp add: with_drop_def fillna_def length_diff_from)

lemma top_drop_insights_unfold:
  "df \<noteq> [] \<Longrightarrow> 0 < video_secs \<Longrightarrow>
     top_drop_insights df video_secs k = map (insight video_secs) (nsmallest k (with_drop df))"
  by (simp add: top_drop_insights_def Let_def)

lemma length_nsmallest: "length (nsmallest k d) = min (nat k) (length d)"
  by (simp add: nsmallest_def min.commute)

lemma format_1f_zero: "format_1f 0 = ''0.0''"
  by code_simp

lemma insight_clamped:
  "0 \<le> snd e \<Longrightarrow> starts_with ''~0.0% viewers dropped near '' (insight video_secs e)"
proof -
  assume "0 \<le> snd e"
  then have "py_max 0 (- snd e * 100) = 0" by (simp add: py_max_def)
  then show ?thesis by (simp add: insight_def Let_def format_1f_zero)
qed

lemma negatives_selected:
  "length (filter P (nsmallest k d)) \<le> length (filter P d)"
proof -
  have "length (filter P (take (nat k) (sort_key snd d)))
      \<le> length (filter P (take (nat k) (sort_key snd d)))
        + length (filter P (drop (nat k) (sort_key snd d)))" by simp
  also have "\<dots> = length (filter P (take (nat k) (sort_key snd d) @ drop (nat k) (sort_key snd d)))"
    by (simp only: filter_append length_append)
  also have "\<dots> = length (filter P (sort_key snd d))" by simp
  also have "\<dots> = length (sort_key snd (filter P d))" by (simp only: filter_sort)
  also have "\<dots> = length (filter P d)" by simp
  finally show ?thesis by (simp add: nsmallest_def)
qed

lemma some_not_negative:
  assumes "negative_drops df < min (nat k) (length df)"
  shows "\<exists>e\<in>set (nsmallest k (with_drop df)). 0 \<le> snd e"
proof (rule ccontr)
  let ?sel = "nsmallest k (with_drop df)"
  assume "\<not> (\<exists>e\<in>set ?sel. 0 \<le> snd e)"
  then have "\<forall>e\<in>set ?sel. snd e < 0" by auto
  then have "filter (\<lambda>e. snd e < 0) ?sel = ?sel" by (simp add: filter_id_conv)
  then have "length ?sel = length (filter (\<lambda>e. snd e < 0) ?sel)" by simp
  also have "\<dots> \<le> negative_drops df"
    unfolding negative_drops_def by (rule negatives_selected)
  finally show False using assms by (simp add: length_nsmallest length_with_drop)
qed

text \<open>
  C8.  \<open>top_drop_insights\<close> returns the empty list whenever the curve is empty or the
  duration is 0 seconds or less.
\<close>

theorem top_drop_insights_empty:
  "df = [] \<or> video_secs \<le> 0 \<Longrightarrow> top_drop_insights df video_secs k = []"
  by (auto simp: top_drop_insights_def)

theorem top_drop_insights_empty_witness:
  "(([] :: retention_row list) = [] \<or> (600::int) \<le> 0) \<and> top_drop_insights [] 600 5 = []
   \<and> (sample_curve = [] \<or> (0::int) \<le> 0) \<and> top_drop_insights sample_curve 0 5 = []
   \<and> (sample_curve = [] \<or> (-3::int) \<le> 0) \<and> top_drop_insights sample_curve (-3) 5 = []"
  using top_drop_insights_empty [of "[]" 600 5] top_drop_insights_empty [of sample_curve 0 5]
    top_drop_insights_empty [of sample_curve "-3" 5]
  by simp

text \<open>
  C10.  For a curve that is not empty and a duration above 0, \<open>top_drop_insights\<close> returns
  exactly \<open>min(k, number of curve points)\<close> insights, one for each selected row.  A selected
  row whose change of watch ratio is zero or positive is reported with its drop clamped to
  \<open>0.0%\<close>; and when fewer changes are negative than rows are selected, such a row is
  among the selected ones.
\<close>

theorem top_drop_insights_count:
  "df \<noteq> [] \<Longrightarrow> 0 < video_secs \<Longrightarrow> 0 \<le> k \<Longrightarrow>
     int (length (top_drop_insights df video_secs k)) = min k (int (length df))
   \<and> top_drop_insights df video_secs k = map (insight video_secs) (nsmallest k (with_drop df))
   \<and> (\<forall>e\<in>set (nsmallest k (with_drop df)).
         0 \<le> snd e \<longrightarrow> starts_with ''~0.0% viewers dropped near '' (insight video_secs e))
   \<and> (int (negative_drops df) < min k (int (length df)) \<longrightarrow>
         (\<exists>e\<in>set (nsmallest k (with_drop df)). 0 \<le> snd e))"
proof (intro conjI ballI impI)
  assume a: "df \<noteq> []" "0 < video_secs" "0 \<le> k"
  show u: "top_drop_insights df video_secs k = map (insight video_secs) (nsmallest k (with_drop df))"
    using a(1,2) by (rule top_drop_insights_unfold)
  show "int (length (top_drop_insights df video_secs k)) = min k (int (length df))"
    unfolding u using a(3) by (auto simp: length_nsmallest length_with_drop min_def)
  show "starts_with ''~0.0% viewers dropped near '' (insight video_secs e)" if "0 \<le> snd e" for e
    using that by (rule insight_clamped)
  show "\<exists>e\<in>set (nsmallest k (with_drop df)). 0 \<le> snd e"
    if "int (negative_drops df) < min k (int (length df))"
  proof (rule some_not_negative)
    show "negative_drops df < min (nat k) (length df)" using that a(3) by linarith
  qed
qed

lemma sample_insights:
  "top_drop_insights sample_curve 600 5 =
     [''~55.0% viewers dropped near 60s '' @ [CHR 0xE2, CHR 0x86, CHR 0x92] @ '' '' @ TIP_RESTATE @ ''.'',
      ''~5.0% viewers dropped near 30s '' @ [CHR 0xE2, CHR 0x86, CHR 0x92] @ '' '' @ TIP_INTRO @ ''.'',
      ''~0.0% viewers dropped near 0s '' @ [CHR 0xE2, CHR 0x86, CHR 0x92] @ '' '' @ TIP_HOOK @ ''.'']"
  by code_simp

theorem top_drop_insights_count_witness:
  "sample_curve \<noteq> [] \<and> (0::int) < 600 \<and> (0::int) \<le> 5
   \<and> int (negative_drops sample_curve) < min 5 (int (length sample_curve))
   \<and> length (top_drop_insights sample_curve 600 5) = 3
   \<and> (\<exists>e\<in>set (nsmallest 5 (with_drop sample_curve)). 0 \<le> snd e)"
proof -
  have h: "sample_curve \<noteq> []" "(0::int) < 600" "(0::int) \<le> 5"
    by (simp_all add: sample_curve_def)
  have n: "negative_drops sample_curve = 2" by code_simp
  have l: "length sample_curve = 3" by (simp add: sample_curve_def)
  have lt: "int (negative_drops sample_curve) < min 5 (int (length sample_curve))"
    unfolding n l by simp
  from top_drop_insights_count [OF h]
  have c: "int (length (top_drop_insights sample_curve 600 5)) = min 5 (int (length sample_curve))"
    and e: "int (negative_drops sample_curve) < min 5 (int (length sample_curve)) \<longrightarrow>
         (\<exists>e\<in>set (nsmallest 5 (with_drop sample_curve)). 0 \<le> snd e)"
    by blast+
  from c have "length (top_drop_insights sample_curve 600 5) = 3" unfolding l by simp
  then show ?thesis using h lt e by blast
qed

section \<open>Properties of the cadence analyzer\<close>


















section \<open>Properties of the health scorer\<close>













section \<open>Properties of the channel health\<close>

lemma py_min_min: "py_min a b = min a b"
  by (simp add: py_min_def min_def)

text \<open>
  C9.  The overall Channel Health score is the sum of the five pillar scores weighted by
  Content Optimization 25, Engagement 20, Consistency 15, SEO/Discoverability 20 and
  Retention 20, divided by 100, and the Retention pillar is
  \<open>min(100, 50 + 5 * average_watch_time_hours)\<close>.
\<close>

theorem overall_weighted_sum:
  "overall videos =
     (25 * pillar_score videos Content_Optimization + 20 * pillar_score videos Engagement
      + 15 * pillar_score videos Consistency + 20 * pillar_score videos SEO_Discoverability
      + 20 * pillar_score videos Retention) / 100
   \<and> pillar_score videos Retention = min 100 (50 + 5 * avg (map rv_watch_time_hours videos))
   \<and> map fst (pillars videos)
       = [Content_Optimization, Engagement, Consistency, SEO_Discoverability, Retention]"
  by (simp add: overall_def pillar_score_def pillars_def weights_def Let_def py_min_min
      mult.commute)

section \<open>Properties of view velocity: the clock\<close>





end
